theory Spec2Isabelle
  imports Complex_Main
begin

section \<open>The daily profit job of the investment backend\<close>

text \<open>
  The theory embeds \<^verbatim>\<open>DailyProfitJob\<close> (jobs/dailyProfitJob.js): \<^verbatim>\<open>execute\<close>,
  \<^verbatim>\<open>processInvestment\<close> and \<^verbatim>\<open>completeInvestment\<close>, together with the part of the
  Prisma store they touch.

  Modelling decisions.
  \<^item> Money is an exact rational. The code computes with binary64 numbers
    (\<^verbatim>\<open>parseFloat\<close> of a Prisma Decimal) and the store adds decimals; rounding is outside
    the model. The theorems therefore state which amounts a call computes, writes and
    adds; none of them rests on a cancellation inside the floating-point arithmetic of
    the code, which rounding can break, unless every number involved is exactly
    representable.
  \<^item> A \<^verbatim>\<open>Date\<close> is its number of milliseconds since the epoch, an \<open>int\<close>;
    \<^verbatim>\<open>Math.floor (a / b)\<close> on such numbers is \<open>div\<close>, which rounds down.
  \<^item> \<^verbatim>\<open>new Date()\<close>, the outcome of sending an e-mail and a fault of the store
    (connection loss, deadlock) are inputs of each call, gathered in \<open>call_env\<close>.
    \<^verbatim>\<open>completeInvestment\<close> reads the clock again; it is given the time of its caller,
    which only \<open>updated_at\<close> could tell apart.
  \<^item> The store is passed explicitly; a Prisma interactive transaction that throws
    leaves the store as it was.
  \<^item> Template-string descriptions are constructors of \<open>description\<close> carrying the
    interpolated values. Log output is not modelled.
\<close>

subsection \<open>Rows of the store\<close>

datatype investment_status = ACTIVE | COMPLETED

datatype transaction_type = PROFIT | INVESTMENT

type_synonym ident = nat

text \<open>An \<^verbatim>\<open>activeInvestment\<close> row with the two fields of its plan that the job reads
  (\<^verbatim>\<open>plan.name\<close>, \<^verbatim>\<open>plan.duration_days\<close>) joined in, as \<^verbatim>\<open>findMany\<close> returns it.\<close>

record active_investment =
  inv_id :: ident
  user_id :: ident
  amount_usd :: rat
  daily_percent :: rat
  start_date :: int
  end_date :: int
  total_earned :: rat
  status :: investment_status
  updated_at :: int
  plan_name :: string
  plan_duration_days :: int

datatype description =
    DailyProfitFrom string rat
  | FinalProfitFrom string
  | InvestmentCompletedTotal string rat

record transaction_row =
  tx_user_id :: ident
  tx_type :: transaction_type
  tx_amount_usd :: rat
  tx_description :: description

text \<open>The store: \<^verbatim>\<open>user.balance_usd\<close> by user id, the investment table, and the
  append-only transaction table.\<close>

record db =
  users :: "ident \<rightharpoonup> rat"
  investments :: "active_investment list"
  transactions :: "transaction_row list"

datatype error = RecordNotFound | StoreFault string

subsection \<open>Store operations\<close>

definition bind_result :: "error + 'a \<Rightarrow> ('a \<Rightarrow> error + 'b) \<Rightarrow> error + 'b" where
  "bind_result m f = (case m of Inl e \<Rightarrow> Inl e | Inr x \<Rightarrow> f x)"

text \<open>\<^verbatim>\<open>tx.user.update ({where: {id}, data: {balance_usd: {increment}}})\<close>:
  throws when no such user exists.\<close>

definition user_update_increment :: "ident \<Rightarrow> rat \<Rightarrow> db \<Rightarrow> error + db" where
  "user_update_increment uid delta s =
     (case users s uid of
        None \<Rightarrow> Inl RecordNotFound
      | Some b \<Rightarrow> Inr (s\<lparr>users := (users s)(uid \<mapsto> b + delta)\<rparr>))"

text \<open>\<^verbatim>\<open>tx.activeInvestment.update ({where: {id}, data})\<close>: throws when no row has
  the id.\<close>

definition investment_update ::
  "ident \<Rightarrow> (active_investment \<Rightarrow> active_investment) \<Rightarrow> db \<Rightarrow> error + db" where
  "investment_update i f s =
     (if i \<in> set (map inv_id (investments s))
      then Inr (s\<lparr>investments := map (\<lambda>r. if inv_id r = i then f r else r) (investments s)\<rparr>)
      else Inl RecordNotFound)"

text \<open>\<^verbatim>\<open>tx.transaction.create ({data})\<close>.\<close>

definition transaction_create :: "transaction_row \<Rightarrow> db \<Rightarrow> error + db" where
  "transaction_create t s = Inr (s\<lparr>transactions := transactions s @ [t]\<rparr>)"

text \<open>\<^verbatim>\<open>prisma.$transaction (async (tx) => ...)\<close>: all statements or none. The
  fault, when present, is an error the store raises during the transaction for a reason
  outside the model (connection loss, deadlock, a violated constraint).\<close>

definition run_transaction :: "error option \<Rightarrow> (db \<Rightarrow> error + db) \<Rightarrow> db \<Rightarrow> error + db" where
  "run_transaction fault body s =
     (case fault of Some e \<Rightarrow> Inl e | None \<Rightarrow> body s)"

text \<open>A read of one row by id, as a later listing would return it.\<close>

definition find_investment :: "ident \<Rightarrow> db \<Rightarrow> active_investment option" where
  "find_investment i s = find (\<lambda>r. inv_id r = i) (investments s)"

subsection \<open>Processing one investment\<close>

record call_env =
  now :: int
  tx_fault :: "error option"
  email_ok :: bool

text \<open>The object a call returns; an absent \<^verbatim>\<open>completed\<close> or \<^verbatim>\<open>emailSent\<close> is falsy,
  hence \<open>False\<close>.\<close>

record process_result =
  success :: bool
  completed :: bool
  profitAmount :: "rat option"
  emailSent :: bool
  message :: "string option"
  error :: "error option"

definition skipped :: "string \<Rightarrow> process_result" where
  "skipped m = \<lparr>success = True, completed = False, profitAmount = None, emailSent = False,
                message = Some m, error = None\<rparr>"

definition failed :: "error \<Rightarrow> process_result" where
  "failed e = \<lparr>success = False, completed = False, profitAmount = None, emailSent = False,
               message = None, error = Some e\<rparr>"

definition MS_PER_DAY :: int where
  "MS_PER_DAY = 1000 * 60 * 60 * 24"

definition completeInvestment ::
  "active_investment \<Rightarrow> call_env \<Rightarrow> db \<Rightarrow> process_result \<times> db" where
  "completeInvestment investment env s =
     (let totalExpectedProfit =
            (amount_usd investment * daily_percent investment
               * of_int (plan_duration_days investment)) / 100;
          alreadyEarned = total_earned investment;
          remainingProfit = max 0 (totalExpectedProfit - alreadyEarned)
      in case run_transaction (tx_fault env)
           (\<lambda>tx0.
              bind_result
                (if remainingProfit > 0
                 then bind_result (user_update_increment (user_id investment) remainingProfit tx0)
                        (transaction_create
                           \<lparr>tx_user_id = user_id investment, tx_type = PROFIT,
                            tx_amount_usd = remainingProfit,
                            tx_description = FinalProfitFrom (plan_name investment)\<rparr>)
                 else Inr tx0)
                (\<lambda>tx1.
                   bind_result
                     (investment_update (inv_id investment)
                        (\<lambda>r. r\<lparr>status := COMPLETED, total_earned := totalExpectedProfit,
                                updated_at := now env\<rparr>) tx1)
                     (transaction_create
                        \<lparr>tx_user_id = user_id investment, tx_type = INVESTMENT,
                         tx_amount_usd = 0,
                         tx_description =
                           InvestmentCompletedTotal (plan_name investment) totalExpectedProfit\<rparr>)))
           s of
           Inl e \<Rightarrow> (failed e, s)
         | Inr s' \<Rightarrow>
             (\<lparr>success = True, completed = True, profitAmount = Some remainingProfit,
               emailSent = email_ok env,
               message = Some ''Investment completed successfully'', error = None\<rparr>, s'))"

definition processInvestment ::
  "active_investment \<Rightarrow> call_env \<Rightarrow> db \<Rightarrow> process_result \<times> db" where
  "processInvestment investment env s =
     (if now env > end_date investment then completeInvestment investment env s
      else
        let daysElapsed = (now env - start_date investment) div MS_PER_DAY in
        if daysElapsed < 1 then (skipped ''Investment too recent for profit'', s)
        else
          let expectedTotalProfit =
                (amount_usd investment * daily_percent investment * of_int daysElapsed) / 100;
              alreadyEarned = total_earned investment;
              newProfit = expectedTotalProfit - alreadyEarned
          in if newProfit \<le> 0 then (skipped ''No new profit to distribute'', s)
             else
               case run_transaction (tx_fault env)
                 (\<lambda>tx0.
                    bind_result (user_update_increment (user_id investment) newProfit tx0)
                      (\<lambda>tx1.
                         bind_result
                           (investment_update (inv_id investment)
                              (\<lambda>r. r\<lparr>total_earned := total_earned r + newProfit,
                                      updated_at := now env\<rparr>) tx1)
                           (transaction_create
                              \<lparr>tx_user_id = user_id investment, tx_type = PROFIT,
                               tx_amount_usd = newProfit,
                               tx_description =
                                 DailyProfitFrom (plan_name investment)
                                   (daily_percent investment)\<rparr>)))
                 s of
                 Inl e \<Rightarrow> (failed e, s)
               | Inr s' \<Rightarrow>
                   (\<lparr>success = True, completed = False, profitAmount = Some newProfit,
                     emailSent = email_ok env,
                     message = Some ''Profit calculated and distributed successfully'',
                     error = None\<rparr>, s'))"

subsection \<open>The run over all active investments\<close>

record job =
  isRunning :: bool

record error_entry =
  investmentId :: ident
  userId :: ident
  entry_error :: "error option"

record results =
  totalInvestments :: nat
  processedInvestments :: nat
  completedInvestments :: nat
  totalProfitDistributed :: rat
  errors :: "error_entry list"
  emailsSent :: nat

text \<open>The object \<^verbatim>\<open>execute\<close> returns; a field the object lacks is \<open>None\<close>.\<close>

record execute_result =
  run_success :: bool
  run_message :: string
  run_error :: "error option"
  run_results :: "results option"
  run_duration :: "int option"

text \<open>What one run reads from outside: whether listing throws, the clock at its start and
  end, and the inputs of the k-th call of \<^verbatim>\<open>processInvestment\<close>.\<close>

record run_env =
  list_fault :: "error option"
  startTime :: int
  endTime :: int
  calls :: "nat \<Rightarrow> call_env"

text \<open>\<^verbatim>\<open>prisma.activeInvestment.findMany ({where: {status: 'ACTIVE'}, ...})\<close>.\<close>

definition findMany_ACTIVE :: "error option \<Rightarrow> db \<Rightarrow> error + active_investment list" where
  "findMany_ACTIVE fault s =
     (case fault of
        Some e \<Rightarrow> Inl e
      | None \<Rightarrow> Inr (filter (\<lambda>r. status r = ACTIVE) (investments s)))"

definition initial_results :: results where
  "initial_results =
     \<lparr>totalInvestments = 0, processedInvestments = 0, completedInvestments = 0,
      totalProfitDistributed = 0, errors = [], emailsSent = 0\<rparr>"

text \<open>One iteration of the \<^verbatim>\<open>for\<close> loop: the summary after the outcome of one call.
  \<^verbatim>\<open>processInvestment\<close> catches everything it raises, so the loop's own \<^verbatim>\<open>catch\<close>
  is never entered.\<close>

definition record_outcome :: "active_investment \<Rightarrow> process_result \<Rightarrow> results \<Rightarrow> results" where
  "record_outcome investment result res =
     (if success result
      then res\<lparr>processedInvestments := processedInvestments res + 1,
               totalProfitDistributed :=
                 totalProfitDistributed res
                   + (case profitAmount result of None \<Rightarrow> 0 | Some p \<Rightarrow> p),
               completedInvestments :=
                 (if completed result then completedInvestments res + 1
                  else completedInvestments res),
               emailsSent :=
                 (if emailSent result then emailsSent res + 1 else emailsSent res)\<rparr>
      else res\<lparr>errors :=
                 errors res @
                   [\<lparr>investmentId = inv_id investment, userId = user_id investment,
                     entry_error = error result\<rparr>]\<rparr>)"

fun process_all ::
  "active_investment list \<Rightarrow> nat \<Rightarrow> (nat \<Rightarrow> call_env) \<Rightarrow> results \<Rightarrow> db \<Rightarrow> results \<times> db" where
  "process_all [] k envs res s = (res, s)"
| "process_all (investment # rest) k envs res s =
     (case processInvestment investment (envs k) s of
        (result, s') \<Rightarrow> process_all rest (Suc k) envs (record_outcome investment result res) s')"

definition already_running :: execute_result where
  "already_running =
     \<lparr>run_success = False, run_message = ''Job already running'', run_error = None,
      run_results = None, run_duration = None\<rparr>"

definition execute :: "run_env \<Rightarrow> job \<Rightarrow> db \<Rightarrow> execute_result \<times> job \<times> db" where
  "execute env j s =
     (if isRunning j then (already_running, j, s)
      else
        let j1 = j\<lparr>isRunning := True\<rparr>;
            res0 = initial_results
        in case findMany_ACTIVE (list_fault env) s of
             Inl e \<Rightarrow>
               (\<lparr>run_success = False, run_message = ''Daily profit calculation failed'',
                 run_error = Some e, run_results = Some res0, run_duration = None\<rparr>,
                j1\<lparr>isRunning := False\<rparr>, s)
           | Inr activeInvestments \<Rightarrow>
               (let (res, s') =
                      process_all activeInvestments 0 (calls env)
                        (res0\<lparr>totalInvestments := length activeInvestments\<rparr>) s
                in (\<lparr>run_success = True,
                     run_message = ''Daily profit calculation completed successfully'',
                     run_error = None, run_results = Some res,
                     run_duration = Some (endTime env - startTime env)\<rparr>,
                    j1\<lparr>isRunning := False\<rparr>, s')))"

subsection \<open>Notions used to state the properties\<close>

text \<open>The full contractual profit of an investment, the expression
  \<^verbatim>\<open>totalExpectedProfit\<close> of \<^verbatim>\<open>completeInvestment\<close>.\<close>

definition contractual_total :: "active_investment \<Rightarrow> rat" where
  "contractual_total r =
     (amount_usd r * daily_percent r * of_int (plan_duration_days r)) / 100"

text \<open>The profit due up to a time, the expression \<^verbatim>\<open>expectedTotalProfit\<close> of
  \<^verbatim>\<open>processInvestment\<close>.\<close>

definition contractual_to_date :: "active_investment \<Rightarrow> int \<Rightarrow> rat" where
  "contractual_to_date r t =
     (amount_usd r * daily_percent r * of_int ((t - start_date r) div MS_PER_DAY)) / 100"

text \<open>The investment of scripts/testProfitJob.js: 100 USD in the Starter plan
  (1.5 percent a day for 30 days, scripts/seedAdmin.js), nothing earned yet, alone in a
  store whose single user holds the balance \<open>b\<close>.\<close>

definition scenario_investment :: "int \<Rightarrow> active_investment" where
  "scenario_investment t0 =
     \<lparr>inv_id = 1, user_id = 1, amount_usd = 100, daily_percent = 3 / 2,
      start_date = t0, end_date = t0 + 30 * MS_PER_DAY, total_earned = 0, status = ACTIVE,
      updated_at = t0, plan_name = ''Starter'', plan_duration_days = 30\<rparr>"

definition scenario_store :: "int \<Rightarrow> rat \<Rightarrow> db" where
  "scenario_store t0 b =
     \<lparr>users = [1 \<mapsto> b], investments = [scenario_investment t0], transactions = []\<rparr>"

text \<open>The same investment with 40 already earned of its contractual 45, and with a
  corrupted 50 earned, each alone in a store whose owner holds nothing.\<close>

definition scenario_late_investment :: active_investment where
  "scenario_late_investment = (scenario_investment 0)\<lparr>total_earned := 40\<rparr>"

definition scenario_late_store :: db where
  "scenario_late_store =
     \<lparr>users = [1 \<mapsto> 0], investments = [scenario_late_investment], transactions = []\<rparr>"

definition scenario_overpaid_investment :: active_investment where
  "scenario_overpaid_investment = (scenario_investment 0)\<lparr>total_earned := 50\<rparr>"

definition scenario_overpaid_store :: db where
  "scenario_overpaid_store =
     \<lparr>users = [1 \<mapsto> 0], investments = [scenario_overpaid_investment], transactions = []\<rparr>"

text \<open>The investment with 50 earned in a store whose ledger holds one PROFIT entry of 50
  for it, and whose owner holds those 50.\<close>

definition scenario_overpaid_ledger :: db where
  "scenario_overpaid_ledger =
     \<lparr>users = [1 \<mapsto> 50], investments = [scenario_overpaid_investment],
      transactions =
        [\<lparr>tx_user_id = 1, tx_type = PROFIT, tx_amount_usd = 50,
          tx_description = DailyProfitFrom ''Starter'' (3 / 2)\<rparr>]\<rparr>"

text \<open>The results of the calls of \<^verbatim>\<open>processInvestment\<close> that the loop of \<^verbatim>\<open>execute\<close>
  makes, in order: the loop with the summary left out.\<close>

fun outcomes ::
  "active_investment list \<Rightarrow> nat \<Rightarrow> (nat \<Rightarrow> call_env) \<Rightarrow> db \<Rightarrow> process_result list" where
  "outcomes [] k envs s = []"
| "outcomes (investment # rest) k envs s =
     (case processInvestment investment (envs k) s of
        (result, s') \<Rightarrow> result # outcomes rest (Suc k) envs s')"

text \<open>A sequence of calls of \<^verbatim>\<open>processInvestment\<close>, each with the snapshot it is handed
  (whether or not the store still holds that row unchanged) and its own inputs.\<close>

fun process_snapshots :: "(active_investment \<times> call_env) list \<Rightarrow> db \<Rightarrow> db" where
  "process_snapshots [] s = s"
| "process_snapshots (c # rest) s =
     process_snapshots rest (snd (processInvestment (fst c) (snd c) s))"

text \<open>A call for the investment \<open>i\<close> that takes the accrual path: its time is not after the
  end of the snapshot.\<close>

definition on_accrual_path :: "ident \<Rightarrow> active_investment \<times> call_env \<Rightarrow> bool" where
  "on_accrual_path i c = (inv_id (fst c) = i \<and> now (snd c) \<le> end_date (fst c))"

text \<open>The sum of the amounts of a list of ledger entries.\<close>

definition amounts :: "transaction_row list \<Rightarrow> rat" where
  "amounts ts = sum_list (map tx_amount_usd ts)"

text \<open>A run at time \<open>t\<close> in which listing, store and mail all work.\<close>

definition scenario_run :: "int \<Rightarrow> run_env" where
  "scenario_run t =
     \<lparr>list_fault = None, startTime = t, endTime = t,
      calls = (\<lambda>k. \<lparr>now = t, tx_fault = None, email_ok = True\<rparr>)\<rparr>"

text \<open>The test investment after its completion, and a store that holds it next to a
  second, still active investment of the same owner.\<close>

definition scenario_completed_investment :: active_investment where
  "scenario_completed_investment =
     (scenario_investment 0)\<lparr>total_earned := 45, status := COMPLETED\<rparr>"

definition scenario_completed_store :: db where
  "scenario_completed_store =
     \<lparr>users = [1 \<mapsto> 45],
      investments = [scenario_completed_investment, (scenario_investment 0)\<lparr>inv_id := 2\<rparr>],
      transactions = []\<rparr>"

section \<open>Basic facts\<close>

lemmas store_ops =
  run_transaction_def bind_result_def user_update_increment_def investment_update_def
  transaction_create_def

lemma processInvestment_ended:
  "end_date iv < now env \<Longrightarrow> processInvestment iv env s = completeInvestment iv env s"
  by (simp add: processInvestment_def)

lemma processInvestment_too_recent:
  assumes "now env \<le> end_date iv" and "(now env - start_date iv) div MS_PER_DAY < 1"
  shows "processInvestment iv env s = (skipped ''Investment too recent for profit'', s)"
  using assms by (simp add: processInvestment_def)

lemma processInvestment_nothing_owed:
  assumes "now env \<le> end_date iv" and "1 \<le> (now env - start_date iv) div MS_PER_DAY"
    and "contractual_to_date iv (now env) - total_earned iv \<le> 0"
  shows "processInvestment iv env s = (skipped ''No new profit to distribute'', s)"
  using assms by (simp add: processInvestment_def contractual_to_date_def Let_def)

lemma processInvestment_credit:
  assumes "now env \<le> end_date iv" and "1 \<le> (now env - start_date iv) div MS_PER_DAY"
    and "0 < contractual_to_date iv (now env) - total_earned iv"
    and "tx_fault env = None" and "users s (user_id iv) = Some b"
    and "inv_id iv \<in> set (map inv_id (investments s))"
  shows "processInvestment iv env s =
    (\<lparr>success = True, completed = False,
      profitAmount = Some (contractual_to_date iv (now env) - total_earned iv),
      emailSent = email_ok env,
      message = Some ''Profit calculated and distributed successfully'', error = None\<rparr>,
     s\<lparr>users := (users s)(user_id iv \<mapsto> b + (contractual_to_date iv (now env) - total_earned iv)),
       investments := map (\<lambda>r. if inv_id r = inv_id iv
          then r\<lparr>total_earned := total_earned r + (contractual_to_date iv (now env) - total_earned iv),
                 updated_at := now env\<rparr> else r) (investments s),
       transactions := transactions s @
          [\<lparr>tx_user_id = user_id iv, tx_type = PROFIT,
            tx_amount_usd = contractual_to_date iv (now env) - total_earned iv,
            tx_description = DailyProfitFrom (plan_name iv) (daily_percent iv)\<rparr>]\<rparr>)"
  using assms
  by (simp add: processInvestment_def contractual_to_date_def Let_def store_ops)

lemma completeInvestment_ok:
  assumes "tx_fault env = None"
    and "inv_id iv \<in> set (map inv_id (investments s))"
    and "contractual_total iv - total_earned iv \<le> 0 \<or> users s (user_id iv) = Some b"
  shows "completeInvestment iv env s =
    (\<lparr>success = True, completed = True,
      profitAmount = Some (max 0 (contractual_total iv - total_earned iv)),
      emailSent = email_ok env,
      message = Some ''Investment completed successfully'', error = None\<rparr>,
     s\<lparr>users := (if 0 < contractual_total iv - total_earned iv
                  then (users s)(user_id iv \<mapsto> b + (contractual_total iv - total_earned iv))
                  else users s),
       investments := map (\<lambda>r. if inv_id r = inv_id iv
          then r\<lparr>status := COMPLETED, total_earned := contractual_total iv,
                 updated_at := now env\<rparr> else r) (investments s),
       transactions := transactions s @
          (if 0 < contractual_total iv - total_earned iv
           then [\<lparr>tx_user_id = user_id iv, tx_type = PROFIT,
                  tx_amount_usd = contractual_total iv - total_earned iv,
                  tx_description = FinalProfitFrom (plan_name iv)\<rparr>] else []) @
          [\<lparr>tx_user_id = user_id iv, tx_type = INVESTMENT, tx_amount_usd = 0,
            tx_description = InvestmentCompletedTotal (plan_name iv) (contractual_total iv)\<rparr>]\<rparr>)"
  using assms
  by (auto simp add: completeInvestment_def contractual_total_def Let_def store_ops max_def)

lemma find_map_same_id:
  assumes "\<And>r. inv_id (f r) = inv_id r"
  shows "find (\<lambda>r. inv_id r = i) (map (\<lambda>r. if inv_id r = i then f r else r) xs)
           = map_option f (find (\<lambda>r. inv_id r = i) xs)"
  using assms by (induction xs) auto

lemma find_map_other_id:
  assumes "\<And>r. inv_id (f r) = inv_id r" and "i \<noteq> k"
  shows "find (\<lambda>r. inv_id r = i) (map (\<lambda>r. if inv_id r = k then f r else r) xs)
           = find (\<lambda>r. inv_id r = i) xs"
  using assms by (induction xs) auto

lemma find_Some_id_mem:
  "find (\<lambda>r. inv_id r = i) xs = Some iv \<Longrightarrow> i \<in> set (map inv_id xs) \<and> inv_id iv = i"
  by (induction xs) (auto split: if_splits)

lemma find_investment_present:
  "find_investment (inv_id iv) s = Some iv \<Longrightarrow> inv_id iv \<in> set (map inv_id (investments s))"
  unfolding find_investment_def using find_Some_id_mem by fastforce

lemma MS_PER_DAY_pos: "0 < MS_PER_DAY"
  by (simp add: MS_PER_DAY_def)

lemma whole_days_elapsed: "(k * MS_PER_DAY) div MS_PER_DAY = k"
  using MS_PER_DAY_pos by simp

lemma find_investment_stored:
  "find_investment (inv_id iv) s = Some row \<Longrightarrow> inv_id iv \<in> set (map inv_id (investments s))"
  unfolding find_investment_def using find_Some_id_mem by fastforce


lemma completeInvestment_committed:
  assumes stored: "find_investment (inv_id iv) s = Some row"
    and committed: "success (fst (completeInvestment iv env s))"
  shows "transactions (snd (completeInvestment iv env s))
           = transactions s @
             (if 0 < contractual_total iv - total_earned iv
              then [\<lparr>tx_user_id = user_id iv, tx_type = PROFIT,
                     tx_amount_usd = contractual_total iv - total_earned iv,
                     tx_description = FinalProfitFrom (plan_name iv)\<rparr>] else []) @
             [\<lparr>tx_user_id = user_id iv, tx_type = INVESTMENT, tx_amount_usd = 0,
               tx_description = InvestmentCompletedTotal (plan_name iv) (contractual_total iv)\<rparr>]
       \<and> find_investment (inv_id iv) (snd (completeInvestment iv env s))
           = Some (row\<lparr>status := COMPLETED, total_earned := contractual_total iv,
                     updated_at := now env\<rparr>)"
proof -
  have present: "inv_id iv \<in> set (map inv_id (investments s))"
    using stored by (rule find_investment_stored)
  have ok: "tx_fault env = None"
  proof (cases "tx_fault env")
    case None
    then show ?thesis .
  next
    case (Some e)
    then have "completeInvestment iv env s = (failed e, s)"
      by (simp add: completeInvestment_def Let_def run_transaction_def)
    then show ?thesis using committed by (simp add: failed_def)
  qed
  have "contractual_total iv - total_earned iv \<le> 0 \<or> users s (user_id iv) \<noteq> None"
  proof (rule ccontr)
    assume "\<not> ?thesis"
    then have "completeInvestment iv env s = (failed RecordNotFound, s)"
      using ok
      by (simp add: completeInvestment_def contractual_total_def Let_def store_ops max_def)
    then show False using committed by (simp add: failed_def)
  qed
  then obtain b where
    "contractual_total iv - total_earned iv \<le> 0 \<or> users s (user_id iv) = Some b"
    by auto
  from completeInvestment_ok [OF ok present this] stored
  show ?thesis
    by (simp add: find_investment_def find_map_same_id)
qed

lemma processInvestment_accrual_outcome:
  assumes stored: "find_investment (inv_id iv) s = Some row"
    and active: "now env \<le> end_date iv"
  shows "snd (processInvestment iv env s) = s
       \<or> (transactions (snd (processInvestment iv env s))
             = transactions s @
               [\<lparr>tx_user_id = user_id iv, tx_type = PROFIT,
                 tx_amount_usd = contractual_to_date iv (now env) - total_earned iv,
                 tx_description = DailyProfitFrom (plan_name iv) (daily_percent iv)\<rparr>]
          \<and> find_investment (inv_id iv) (snd (processInvestment iv env s))
              = Some (row\<lparr>total_earned :=
                            total_earned row
                              + (contractual_to_date iv (now env) - total_earned iv),
                        updated_at := now env\<rparr>))"
proof -
  have present: "inv_id iv \<in> set (map inv_id (investments s))"
    using stored by (rule find_investment_stored)
  consider (recent) "(now env - start_date iv) div MS_PER_DAY < 1"
    | (none) "1 \<le> (now env - start_date iv) div MS_PER_DAY"
        "contractual_to_date iv (now env) - total_earned iv \<le> 0"
    | (owed) "1 \<le> (now env - start_date iv) div MS_PER_DAY"
        "0 < contractual_to_date iv (now env) - total_earned iv"
    by linarith
  then show ?thesis
  proof cases
    case recent
    then show ?thesis using processInvestment_too_recent [OF active] by simp
  next
    case none
    then show ?thesis using processInvestment_nothing_owed [OF active] by simp
  next
    case owed
    show ?thesis
    proof (cases "tx_fault env")
      case (Some e)
      then have "processInvestment iv env s = (failed e, s)"
        using active owed
        by (simp add: processInvestment_def contractual_to_date_def Let_def run_transaction_def)
      then show ?thesis by simp
    next
      case None
      show ?thesis
      proof (cases "users s (user_id iv)")
        case no_user: None
        then have "processInvestment iv env s = (failed RecordNotFound, s)"
          using active owed None
          by (simp add: processInvestment_def contractual_to_date_def Let_def store_ops)
        then show ?thesis by simp
      next
        case (Some b)
        from processInvestment_credit [OF active owed None Some present] stored
        show ?thesis
          by (simp add: find_investment_def find_map_same_id)
      qed
    qed
  qed
qed

lemma accrual_call_conserves:
  assumes stored: "find_investment (inv_id iv) s = Some row"
    and active: "now env \<le> end_date iv"
  shows "\<exists>new row'.
           transactions (snd (processInvestment iv env s)) = transactions s @ new
         \<and> find_investment (inv_id iv) (snd (processInvestment iv env s)) = Some row'
         \<and> amounts new = total_earned row' - total_earned row"
  using processInvestment_accrual_outcome [OF stored active]
proof
  assume "snd (processInvestment iv env s) = s"
  then show ?thesis
    using stored by (intro exI [of _ "[]"] exI [of _ row]) (simp add: amounts_def)
next
  assume "transactions (snd (processInvestment iv env s))
             = transactions s @
               [\<lparr>tx_user_id = user_id iv, tx_type = PROFIT,
                 tx_amount_usd = contractual_to_date iv (now env) - total_earned iv,
                 tx_description = DailyProfitFrom (plan_name iv) (daily_percent iv)\<rparr>]
          \<and> find_investment (inv_id iv) (snd (processInvestment iv env s))
              = Some (row\<lparr>total_earned :=
                            total_earned row
                              + (contractual_to_date iv (now env) - total_earned iv),
                        updated_at := now env\<rparr>)"
  then show ?thesis
    by (intro exI [of _ "[\<lparr>tx_user_id = user_id iv, tx_type = PROFIT,
                 tx_amount_usd = contractual_to_date iv (now env) - total_earned iv,
                 tx_description = DailyProfitFrom (plan_name iv) (daily_percent iv)\<rparr>]"]
        exI [of _ "row\<lparr>total_earned :=
                            total_earned row
                              + (contractual_to_date iv (now env) - total_earned iv),
                        updated_at := now env\<rparr>"]) (simp add: amounts_def)
qed

lemma accrual_calls_conserve:
  assumes "find_investment i s = Some row" and "list_all (on_accrual_path i) cs"
  shows "\<exists>new row'.
           transactions (process_snapshots cs s) = transactions s @ new
         \<and> find_investment i (process_snapshots cs s) = Some row'
         \<and> amounts new = total_earned row' - total_earned row"
  using assms
proof (induction cs arbitrary: s row)
  case Nil
  then show ?case
    by (intro exI [of _ "[]"] exI [of _ row]) (simp add: amounts_def)
next
  case (Cons c rest)
  let ?s1 = "snd (processInvestment (fst c) (snd c) s)"
  have c: "inv_id (fst c) = i" "now (snd c) \<le> end_date (fst c)"
    using Cons.prems(2) by (simp_all add: on_accrual_path_def)
  have "find_investment (inv_id (fst c)) s = Some row"
    using Cons.prems(1) c(1) by simp
  from accrual_call_conserves [OF this c(2)]
  obtain new row1 where step:
    "transactions ?s1 = transactions s @ new"
    "find_investment i ?s1 = Some row1"
    "amounts new = total_earned row1 - total_earned row"
    using c(1) by auto
  have "list_all (on_accrual_path i) rest"
    using Cons.prems(2) by simp
  from Cons.IH [OF step(2) this]
  obtain more row' where rest:
    "transactions (process_snapshots rest ?s1) = transactions ?s1 @ more"
    "find_investment i (process_snapshots rest ?s1) = Some row'"
    "amounts more = total_earned row' - total_earned row1"
    by blast
  have "amounts (new @ more) = total_earned row' - total_earned row"
    using step(3) rest(3) by (simp add: amounts_def)
  then show ?case
    using step(1) rest(1,2)
    by (intro exI [of _ "new @ more"] exI [of _ row']) simp
qed



lemmas scenario_defs =
  scenario_investment_def scenario_store_def scenario_late_investment_def
  scenario_late_store_def scenario_overpaid_investment_def scenario_overpaid_store_def
  scenario_completed_investment_def scenario_completed_store_def scenario_run_def

subsection \<open>Facts about the run\<close>

lemma record_outcome_counts:
  "totalInvestments (record_outcome iv r res) = totalInvestments res"
  "processedInvestments (record_outcome iv r res)
     = processedInvestments res + (if success r then 1 else 0)"
  "length (errors (record_outcome iv r res))
     = length (errors res) + (if success r then 0 else 1)"
  by (simp_all add: record_outcome_def)

lemma process_all_counts:
  "totalInvestments (fst (process_all ivs k envs res s)) = totalInvestments res
   \<and> processedInvestments (fst (process_all ivs k envs res s))
       = processedInvestments res + length (filter success (outcomes ivs k envs s))
   \<and> length (errors (fst (process_all ivs k envs res s)))
       = length (errors res) + length (filter (\<lambda>r. \<not> success r) (outcomes ivs k envs s))"
proof (induction ivs arbitrary: k res s)
  case Nil
  show ?case by simp
next
  case (Cons iv rest)
  obtain r s' where step: "processInvestment iv (envs k) s = (r, s')"
    by (cases "processInvestment iv (envs k) s")
  show ?case
    using Cons.IH [of "Suc k" "record_outcome iv r res" s']
    by (simp add: step record_outcome_counts)
qed

lemma outcomes_length: "length (outcomes ivs k envs s) = length ivs"
proof (induction ivs arbitrary: k s)
  case Nil
  show ?case by simp
next
  case (Cons iv rest)
  then show ?case by (simp split: prod.splits)
qed

lemma execute_admitted:
  assumes "\<not> isRunning j" and "list_fault env = None"
  shows "execute env j s =
    (\<lparr>run_success = True,
      run_message = ''Daily profit calculation completed successfully'',
      run_error = None,
      run_results = Some (fst (process_all (filter (\<lambda>r. status r = ACTIVE) (investments s)) 0
         (calls env)
         (initial_results\<lparr>totalInvestments :=
             length (filter (\<lambda>r. status r = ACTIVE) (investments s))\<rparr>) s)),
      run_duration = Some (endTime env - startTime env)\<rparr>,
     j\<lparr>isRunning := False\<rparr>,
     snd (process_all (filter (\<lambda>r. status r = ACTIVE) (investments s)) 0
         (calls env)
         (initial_results\<lparr>totalInvestments :=
             length (filter (\<lambda>r. status r = ACTIVE) (investments s))\<rparr>) s))"
  using assms
  by (simp add: execute_def findMany_ACTIVE_def Let_def split: prod.splits)

lemma execute_listing_fails:
  assumes "\<not> isRunning j" and "list_fault env = Some e"
  shows "execute env j s =
    (\<lparr>run_success = False, run_message = ''Daily profit calculation failed'',
      run_error = Some e, run_results = Some initial_results, run_duration = None\<rparr>,
     j\<lparr>isRunning := False\<rparr>, s)"
  using assms by (simp add: execute_def findMany_ACTIVE_def Let_def)

lemma execute_running:
  "isRunning j \<Longrightarrow> execute env j s = (already_running, j, s)"
  by (simp add: execute_def)

lemma completeInvestment_other_rows:
  assumes "i \<noteq> inv_id iv"
  shows "find_investment i (snd (completeInvestment iv env s)) = find_investment i s"
  using assms
  by (auto simp: completeInvestment_def Let_def store_ops find_investment_def
      find_map_other_id split: option.splits)

lemma processInvestment_other_rows:
  assumes "i \<noteq> inv_id iv"
  shows "find_investment i (snd (processInvestment iv env s)) = find_investment i s"
proof (cases "end_date iv < now env")
  case True
  then show ?thesis
    using assms by (simp add: processInvestment_ended completeInvestment_other_rows)
next
  case False
  then show ?thesis
    using assms
    by (auto simp: processInvestment_def Let_def store_ops find_investment_def
        find_map_other_id split: option.splits)
qed

lemma process_all_other_rows:
  assumes "i \<notin> set (map inv_id ivs)"
  shows "find_investment i (snd (process_all ivs k envs res s)) = find_investment i s"
  using assms
proof (induction ivs arbitrary: k res s)
  case Nil
  show ?case by simp
next
  case (Cons iv rest)
  obtain r s' where step: "processInvestment iv (envs k) s = (r, s')"
    by (cases "processInvestment iv (envs k) s")
  have "find_investment i s' = find_investment i s"
    using processInvestment_other_rows [of i iv "envs k" s] Cons.prems step by simp
  then show ?case
    using Cons.IH [of "Suc k" "record_outcome iv r res" s'] Cons.prems step by simp
qed

lemma find_distinct_row:
  assumes "distinct (map inv_id xs)" and "r \<in> set xs"
  shows "find (\<lambda>x. inv_id x = inv_id r) xs = Some r"
  using assms by (induction xs) (auto simp: image_iff)

lemma completed_id_not_listed:
  assumes "distinct (map inv_id xs)" and "r \<in> set xs" and "status r = COMPLETED"
  shows "inv_id r \<notin> set (map inv_id (filter (\<lambda>x. status x = ACTIVE) xs))"
proof
  assume "inv_id r \<in> set (map inv_id (filter (\<lambda>x. status x = ACTIVE) xs))"
  then obtain x where x: "x \<in> set xs" "status x = ACTIVE" "inv_id x = inv_id r"
    by auto
  have "inj_on inv_id (set xs)"
    using assms(1) by (simp add: distinct_map)
  then have "x = r"
    using x(1,3) assms(2) by (auto dest: inj_onD)
  then show False using x(2) assms(3) by simp
qed

lemma status_not_read:
  "processInvestment (iv\<lparr>status := st\<rparr>) env s = processInvestment iv env s"
  by (simp add: processInvestment_def completeInvestment_def Let_def
      cong: if_cong sum.case_cong)

section \<open>The claims\<close>

subsection \<open>C1: the row that is processed\<close>

text \<open>
  Claim C1, as stated: \<^verbatim>\<open>processInvestment\<close> reads the investment afresh inside its
  transaction and, when the fresh status is COMPLETED, returns the skip ``already
  completed'' without touching balance, \<open>total_earned\<close> or ledger. The function has no
  read of the row and no test of the status. Here the store holds the investment as
  COMPLETED with 45 earned and its owner with a balance of 45. Handed the earlier snapshot
  (ACTIVE, 40 earned) after the end, the call credits 5 once more and writes two ledger
  entries; handed the row as the store holds it, it completes it again and writes the
  completion entry.
\<close>

theorem stale_snapshot_counterexample:
  "find_investment 1 scenario_completed_store = Some scenario_completed_investment
   \<and> status scenario_completed_investment = COMPLETED
   \<and> users scenario_completed_store 1 = Some 45
   \<and> fst (processInvestment scenario_late_investment
          \<lparr>now = 30 * MS_PER_DAY + 1, tx_fault = None, email_ok = True\<rparr>
          scenario_completed_store)
       = \<lparr>success = True, completed = True, profitAmount = Some 5, emailSent = True,
          message = Some ''Investment completed successfully'', error = None\<rparr>
   \<and> users (snd (processInvestment scenario_late_investment
          \<lparr>now = 30 * MS_PER_DAY + 1, tx_fault = None, email_ok = True\<rparr>
          scenario_completed_store)) 1 = Some 50
   \<and> transactions (snd (processInvestment scenario_late_investment
          \<lparr>now = 30 * MS_PER_DAY + 1, tx_fault = None, email_ok = True\<rparr>
          scenario_completed_store))
       = [\<lparr>tx_user_id = 1, tx_type = PROFIT, tx_amount_usd = 5,
           tx_description = FinalProfitFrom ''Starter''\<rparr>,
          \<lparr>tx_user_id = 1, tx_type = INVESTMENT, tx_amount_usd = 0,
           tx_description = InvestmentCompletedTotal ''Starter'' 45\<rparr>]
   \<and> fst (processInvestment scenario_completed_investment
          \<lparr>now = 30 * MS_PER_DAY + 1, tx_fault = None, email_ok = True\<rparr>
          scenario_completed_store)
       = \<lparr>success = True, completed = True, profitAmount = Some 0, emailSent = True,
          message = Some ''Investment completed successfully'', error = None\<rparr>
   \<and> transactions (snd (processInvestment scenario_completed_investment
          \<lparr>now = 30 * MS_PER_DAY + 1, tx_fault = None, email_ok = True\<rparr>
          scenario_completed_store))
       = [\<lparr>tx_user_id = 1, tx_type = INVESTMENT, tx_amount_usd = 0,
           tx_description = InvestmentCompletedTotal ''Starter'' 45\<rparr>]"
  by (simp add: processInvestment_def completeInvestment_def find_investment_def
      scenario_defs Let_def store_ops)

text \<open>
  Claim C1, amended: \<^verbatim>\<open>processInvestment\<close> acts on the snapshot \<^verbatim>\<open>execute\<close> listed and
  hands it, and its outcome does not depend on the status of that snapshot; it neither
  reads the row again nor skips a COMPLETED one. What keeps a completed investment from
  being processed is the listing of \<^verbatim>\<open>execute\<close>, which selects the ACTIVE rows: a row
  that is COMPLETED when the run starts is not handed to \<^verbatim>\<open>processInvestment\<close>, and the
  store holds it unchanged after the run (ids being unique in the table).
\<close>

theorem completed_rows_not_listed:
  assumes ids: "distinct (map inv_id (investments s))"
    and row: "r \<in> set (investments s)"
    and completed_row: "status r = COMPLETED"
  shows "find_investment (inv_id r) (snd (snd (execute env j s))) = Some r
       \<and> processInvestment (iv\<lparr>status := st\<rparr>) env' s' = processInvestment iv env' s'"
proof
  have before: "find_investment (inv_id r) s = Some r"
    using find_distinct_row [OF ids row] by (simp add: find_investment_def)
  have unlisted:
    "inv_id r \<notin> set (map inv_id (filter (\<lambda>x. status x = ACTIVE) (investments s)))"
    using ids row completed_row by (rule completed_id_not_listed)
  show "find_investment (inv_id r) (snd (snd (execute env j s))) = Some r"
  proof (cases "isRunning j")
    case True
    then show ?thesis using before by (simp add: execute_def)
  next
    case False
    show ?thesis
    proof (cases "list_fault env")
      case None
      show ?thesis
        using process_all_other_rows [OF unlisted] before
        by (simp add: execute_def findMany_ACTIVE_def Let_def False None split_beta)
    next
      case (Some e)
      then show ?thesis using before False
        by (simp add: execute_def findMany_ACTIVE_def Let_def)
    qed
  qed
  show "processInvestment (iv\<lparr>status := st\<rparr>) env' s' = processInvestment iv env' s'"
    by (rule status_not_read)
qed

text \<open>A run on the fifth day over the store with one completed and one active
  investment.\<close>

theorem completed_rows_not_listed_witness:
  "distinct (map inv_id (investments scenario_completed_store))
   \<and> scenario_completed_investment \<in> set (investments scenario_completed_store)
   \<and> status scenario_completed_investment = COMPLETED
   \<and> find_investment (inv_id scenario_completed_investment)
        (snd (snd (execute (scenario_run (5 * MS_PER_DAY)) \<lparr>isRunning = False\<rparr>
                     scenario_completed_store)))
       = Some scenario_completed_investment"
proof -
  have h1: "distinct (map inv_id (investments scenario_completed_store))"
    by (simp add: scenario_defs)
  have h2: "scenario_completed_investment \<in> set (investments scenario_completed_store)"
    by (simp add: scenario_completed_store_def)
  have h3: "status scenario_completed_investment = COMPLETED"
    by (simp add: scenario_defs)
  note w = completed_rows_not_listed [OF h1 h2 h3,
      of "scenario_run (5 * MS_PER_DAY)" "\<lparr>isRunning = False\<rparr>"]
  show ?thesis using h1 h2 h3 w by blast
qed

subsection \<open>C2: the ceiling on total_earned\<close>




subsection \<open>C4: ledger entries and total_earned\<close>

text \<open>
  Claim C4, as stated: for every investment, after any sequence of calls, the ledger entries
  written for it sum to its \<open>total_earned\<close>. The completion path assigns the contractual
  total and writes a PROFIT entry only for a positive remainder. The investment with 50
  earned, matched by one PROFIT entry of 50, has a contractual total of 45: completing it
  after its end lowers \<open>total_earned\<close> to 45 and writes only the completion entry of amount
  0, so the entries still sum to 50.
\<close>

theorem overpaid_completion_counterexample:
  "amounts (transactions scenario_overpaid_ledger) = 50
   \<and> map total_earned (investments scenario_overpaid_ledger) = [50]
   \<and> success (fst (processInvestment scenario_overpaid_investment
        \<lparr>now = 30 * MS_PER_DAY + 1, tx_fault = None, email_ok = True\<rparr>
        scenario_overpaid_ledger))
   \<and> amounts (transactions (snd (processInvestment scenario_overpaid_investment
        \<lparr>now = 30 * MS_PER_DAY + 1, tx_fault = None, email_ok = True\<rparr>
        scenario_overpaid_ledger))) = 50
   \<and> map total_earned (investments (snd (processInvestment scenario_overpaid_investment
        \<lparr>now = 30 * MS_PER_DAY + 1, tx_fault = None, email_ok = True\<rparr>
        scenario_overpaid_ledger))) = [45]"
  by (simp add: processInvestment_def completeInvestment_def amounts_def
      scenario_overpaid_ledger_def scenario_defs Let_def store_ops)

text \<open>
  Claim C4, amended: for every investment that the store holds, (1) over any sequence of
  calls of \<^verbatim>\<open>processInvestment\<close> that take the accrual path, whatever snapshots they are
  handed, the entries written sum to the increase of the stored \<open>total_earned\<close>: each call
  writes nothing and changes nothing, or writes one PROFIT entry and adds that same amount
  to \<open>total_earned\<close>; (2) a completion whose transaction commits writes entries that sum to
  the remainder, the contractual total minus the snapshot's \<open>total_earned\<close> or 0 when that
  is negative, and assigns the contractual total to \<open>total_earned\<close>: the assignment is not
  derived from the entry, and when \<open>total_earned\<close> was above the contractual total it is
  lowered with no entry for the difference.
\<close>

theorem ledger_written_by_calls:
  assumes stored: "find_investment i s = Some row"
  shows "(list_all (on_accrual_path i) cs \<longrightarrow>
           (\<exists>new row'.
               transactions (process_snapshots cs s) = transactions s @ new
             \<and> find_investment i (process_snapshots cs s) = Some row'
             \<and> amounts new = total_earned row' - total_earned row))
       \<and> (inv_id iv = i \<and> success (fst (completeInvestment iv env s)) \<longrightarrow>
           (\<exists>new.
               transactions (snd (completeInvestment iv env s)) = transactions s @ new
             \<and> amounts new = max 0 (contractual_total iv - total_earned iv)
             \<and> find_investment i (snd (completeInvestment iv env s))
                 = Some (row\<lparr>status := COMPLETED, total_earned := contractual_total iv,
                           updated_at := now env\<rparr>)))"
proof (intro conjI impI)
  assume "list_all (on_accrual_path i) cs"
  with stored show "\<exists>new row'.
               transactions (process_snapshots cs s) = transactions s @ new
             \<and> find_investment i (process_snapshots cs s) = Some row'
             \<and> amounts new = total_earned row' - total_earned row"
    by (rule accrual_calls_conserve)
next
  assume a: "inv_id iv = i \<and> success (fst (completeInvestment iv env s))"
  then have "find_investment (inv_id iv) s = Some row"
    using stored by simp
  from completeInvestment_committed [OF this] a
  show "\<exists>new.
               transactions (snd (completeInvestment iv env s)) = transactions s @ new
             \<and> amounts new = max 0 (contractual_total iv - total_earned iv)
             \<and> find_investment i (snd (completeInvestment iv env s))
                 = Some (row\<lparr>status := COMPLETED, total_earned := contractual_total iv,
                           updated_at := now env\<rparr>)"
    by (auto simp: amounts_def max_def)
qed

text \<open>The same snapshot of the test investment processed on day 5 and on day 7 (entries of
  7.50 and 10.50, 18 stored), and the investment with 40 earned completed after its end
  (one PROFIT entry of 5).\<close>

theorem ledger_written_by_calls_witness:
  "find_investment 1 (scenario_store 0 0) = Some (scenario_investment 0)
   \<and> list_all (on_accrual_path 1)
        [(scenario_investment 0, \<lparr>now = 5 * MS_PER_DAY, tx_fault = None, email_ok = True\<rparr>),
         (scenario_investment 0, \<lparr>now = 7 * MS_PER_DAY, tx_fault = None, email_ok = True\<rparr>)]
   \<and> (\<exists>new row'.
         transactions
           (process_snapshots
              [(scenario_investment 0,
                \<lparr>now = 5 * MS_PER_DAY, tx_fault = None, email_ok = True\<rparr>),
               (scenario_investment 0,
                \<lparr>now = 7 * MS_PER_DAY, tx_fault = None, email_ok = True\<rparr>)]
              (scenario_store 0 0)) = new
       \<and> find_investment 1
           (process_snapshots
              [(scenario_investment 0,
                \<lparr>now = 5 * MS_PER_DAY, tx_fault = None, email_ok = True\<rparr>),
               (scenario_investment 0,
                \<lparr>now = 7 * MS_PER_DAY, tx_fault = None, email_ok = True\<rparr>)]
              (scenario_store 0 0)) = Some row'
       \<and> amounts new = total_earned row')
   \<and> map tx_amount_usd
        (transactions
           (process_snapshots
              [(scenario_investment 0,
                \<lparr>now = 5 * MS_PER_DAY, tx_fault = None, email_ok = True\<rparr>),
               (scenario_investment 0,
                \<lparr>now = 7 * MS_PER_DAY, tx_fault = None, email_ok = True\<rparr>)]
              (scenario_store 0 0))) = [15 / 2, 21 / 2]
   \<and> find_investment 1 scenario_late_store = Some scenario_late_investment
   \<and> success (fst (completeInvestment scenario_late_investment
                      \<lparr>now = 30 * MS_PER_DAY + 1, tx_fault = None, email_ok = True\<rparr>
                      scenario_late_store))
   \<and> (\<exists>new.
         transactions (snd (completeInvestment scenario_late_investment
                              \<lparr>now = 30 * MS_PER_DAY + 1, tx_fault = None, email_ok = True\<rparr>
                              scenario_late_store)) = new
       \<and> amounts new = 5)"
proof -
  let ?iv = "scenario_investment 0"
  let ?cs = "[(?iv, \<lparr>now = 5 * MS_PER_DAY, tx_fault = None, email_ok = True\<rparr>),
              (?iv, \<lparr>now = 7 * MS_PER_DAY, tx_fault = None, email_ok = True\<rparr>)]"
  let ?late = "\<lparr>now = 30 * MS_PER_DAY + 1, tx_fault = None, email_ok = True\<rparr>"
  have h1: "find_investment 1 (scenario_store 0 0) = Some ?iv"
    by (simp add: find_investment_def scenario_defs)
  have h2: "list_all (on_accrual_path 1) ?cs"
    using MS_PER_DAY_pos by (simp add: on_accrual_path_def scenario_investment_def)
  have h3: "find_investment 1 scenario_late_store = Some scenario_late_investment"
    by (simp add: find_investment_def scenario_defs)
  have h4: "inv_id scenario_late_investment = 1
      \<and> success (fst (completeInvestment scenario_late_investment ?late scenario_late_store))"
    by (simp add: completeInvestment_def scenario_defs Let_def store_ops)
  have vals: "total_earned ?iv = 0" "transactions (scenario_store 0 0) = []"
    "transactions scenario_late_store = []"
    "max 0 (contractual_total scenario_late_investment
              - total_earned scenario_late_investment) = 5"
    by (simp_all add: scenario_defs contractual_total_def)
  from ledger_written_by_calls [OF h1, of ?cs] h2
  have accrual: "\<exists>new row'.
         transactions (process_snapshots ?cs (scenario_store 0 0)) = new
       \<and> find_investment 1 (process_snapshots ?cs (scenario_store 0 0)) = Some row'
       \<and> amounts new = total_earned row'"
    unfolding vals by auto
  from ledger_written_by_calls [OF h3, of "[]" scenario_late_investment ?late] h4
  have completion: "\<exists>new.
         transactions (snd (completeInvestment scenario_late_investment ?late
                              scenario_late_store)) = new
       \<and> amounts new = 5"
    unfolding vals by auto
  have days: "5 * MS_PER_DAY div MS_PER_DAY = 5" "7 * MS_PER_DAY div MS_PER_DAY = 7"
    by (simp_all add: whole_days_elapsed)
  have written: "map tx_amount_usd
        (transactions (process_snapshots ?cs (scenario_store 0 0))) = [15 / 2, 21 / 2]"
    using MS_PER_DAY_pos
    by (simp add: processInvestment_def scenario_defs days Let_def store_ops)
  show ?thesis
    using h1 h2 h3 h4 accrual completion written by blast
qed

subsection \<open>C5: completion\<close>

text \<open>
  Claim C5, as stated: for every investment with \<open>asOf >= end\<close> processing takes the
  completion path and sets the status to COMPLETED. The guard of \<^verbatim>\<open>processInvestment\<close>
  is \<^verbatim>\<open>now > endDate\<close>: at \<open>asOf = end\<close> the accrual path runs. For the test
  investment with 40 earned, processed exactly at its end, the remaining 5 are credited
  through the elapsed-day amount, the result does not carry \<^verbatim>\<open>completed\<close>, and the status
  stays ACTIVE.
\<close>

theorem completion_at_end_counterexample:
  "end_date scenario_late_investment
     \<le> now \<lparr>now = 30 * MS_PER_DAY, tx_fault = None, email_ok = True\<rparr>
   \<and> processInvestment scenario_late_investment
        \<lparr>now = 30 * MS_PER_DAY, tx_fault = None, email_ok = True\<rparr> scenario_late_store
     = (\<lparr>success = True, completed = False, profitAmount = Some 5, emailSent = True,
         message = Some ''Profit calculated and distributed successfully'', error = None\<rparr>,
        \<lparr>users = [1 \<mapsto> 5],
         investments =
           [scenario_late_investment\<lparr>total_earned := 45, status := ACTIVE,
                                      updated_at := 30 * MS_PER_DAY\<rparr>],
         transactions =
           [\<lparr>tx_user_id = 1, tx_type = PROFIT, tx_amount_usd = 5,
             tx_description = DailyProfitFrom ''Starter'' (3 / 2)\<rparr>]\<rparr>)"
  by (simp add: processInvestment_def scenario_defs whole_days_elapsed Let_def store_ops)

text \<open>
  Claim C5, amended: for every investment whose end is strictly before \<open>asOf\<close>, with a
  working store and the owner present, \<^verbatim>\<open>processInvestment\<close> takes the completion path:
  the ceiling is the full contractual total principal * rate * duration_days / 100, the
  shortfall between it and \<open>total_earned\<close> (nothing when there is none) is credited to the
  balance and reported as the final amount, \<open>total_earned\<close> becomes the contractual total
  and the status becomes COMPLETED.
\<close>

theorem completion_after_end:
  assumes ended: "end_date iv < now env"
    and ok: "tx_fault env = None"
    and fresh: "find_investment (inv_id iv) s = Some iv"
    and user: "users s (user_id iv) = Some b"
  shows "\<exists>s'. processInvestment iv env s
           = (\<lparr>success = True, completed = True,
               profitAmount = Some (max 0 (contractual_total iv - total_earned iv)),
               emailSent = email_ok env,
               message = Some ''Investment completed successfully'', error = None\<rparr>, s')
         \<and> users s' (user_id iv) = Some (b + max 0 (contractual_total iv - total_earned iv))
         \<and> find_investment (inv_id iv) s'
             = Some (iv\<lparr>status := COMPLETED, total_earned := contractual_total iv,
                       updated_at := now env\<rparr>)"
proof -
  have present: "inv_id iv \<in> set (map inv_id (investments s))"
    using fresh by (rule find_investment_present)
  have "contractual_total iv - total_earned iv \<le> 0 \<or> users s (user_id iv) = Some b"
    using user by simp
  from completeInvestment_ok [OF ok present this] fresh user
  show ?thesis
    by (simp add: processInvestment_ended [OF ended] find_investment_def find_map_same_id
        max_def)
qed

text \<open>With 40 earned of a contractual 45, one millisecond after the end: 5 are credited.\<close>

theorem completion_after_end_witness:
  "end_date scenario_late_investment < 30 * MS_PER_DAY + 1
   \<and> find_investment (inv_id scenario_late_investment) scenario_late_store
       = Some scenario_late_investment
   \<and> users scenario_late_store (user_id scenario_late_investment) = Some 0
   \<and> total_earned scenario_late_investment = 40
   \<and> contractual_total scenario_late_investment = 45
   \<and> (\<exists>s'. processInvestment scenario_late_investment
              \<lparr>now = 30 * MS_PER_DAY + 1, tx_fault = None, email_ok = True\<rparr>
              scenario_late_store
           = (\<lparr>success = True, completed = True, profitAmount = Some 5, emailSent = True,
               message = Some ''Investment completed successfully'', error = None\<rparr>, s')
         \<and> users s' 1 = Some 5
         \<and> find_investment 1 s'
             = Some (scenario_late_investment
                      \<lparr>status := COMPLETED, total_earned := 45,
                       updated_at := 30 * MS_PER_DAY + 1\<rparr>))"
proof -
  let ?iv = scenario_late_investment
  let ?env = "\<lparr>now = 30 * MS_PER_DAY + 1, tx_fault = None, email_ok = True\<rparr>"
  have h1: "end_date ?iv < now ?env"
    by (simp add: scenario_defs)
  have h2: "tx_fault ?env = None"
    by simp
  have h3: "find_investment (inv_id ?iv) scenario_late_store = Some ?iv"
    by (simp add: find_investment_def scenario_late_store_def)
  have h4: "users scenario_late_store (user_id ?iv) = Some 0"
    by (simp add: scenario_defs)
  have vals: "total_earned ?iv = 40" "contractual_total ?iv = 45" "inv_id ?iv = 1"
    "user_id ?iv = 1"
    by (simp_all add: scenario_defs contractual_total_def)
  note w = completion_after_end [OF h1 h2 h3 h4]
  show ?thesis
    using h1 h3 h4 w unfolding vals by simp
qed

subsection \<open>C6: a negative owed amount\<close>

text \<open>
  Claim C6, as stated: a negative owed amount is reported as a failure of that investment
  and never clamped to zero. With 50 earned against 7.50 due on day five, the accrual path
  reports success with the message ``No new profit to distribute''; with 50 earned against
  a contractual total of 45 after the end, the completion path takes \<^verbatim>\<open>Math.max (0, ...)\<close>,
  reports success with a final amount of 0 and lowers \<open>total_earned\<close> to 45.
\<close>

theorem negative_owed_counterexample:
  "contractual_to_date scenario_overpaid_investment (5 * MS_PER_DAY)
      - total_earned scenario_overpaid_investment < 0
   \<and> processInvestment scenario_overpaid_investment
        \<lparr>now = 5 * MS_PER_DAY, tx_fault = None, email_ok = True\<rparr> scenario_overpaid_store
     = (\<lparr>success = True, completed = False, profitAmount = None, emailSent = False,
         message = Some ''No new profit to distribute'', error = None\<rparr>,
        scenario_overpaid_store)
   \<and> contractual_total scenario_overpaid_investment
      - total_earned scenario_overpaid_investment < 0
   \<and> processInvestment scenario_overpaid_investment
        \<lparr>now = 30 * MS_PER_DAY + 1, tx_fault = None, email_ok = True\<rparr>
        scenario_overpaid_store
     = (\<lparr>success = True, completed = True, profitAmount = Some 0, emailSent = True,
         message = Some ''Investment completed successfully'', error = None\<rparr>,
        \<lparr>users = [1 \<mapsto> 0],
         investments =
           [scenario_overpaid_investment\<lparr>total_earned := 45, status := COMPLETED,
                                          updated_at := 30 * MS_PER_DAY + 1\<rparr>],
         transactions =
           [\<lparr>tx_user_id = 1, tx_type = INVESTMENT, tx_amount_usd = 0,
             tx_description = InvestmentCompletedTotal ''Starter'' 45\<rparr>]\<rparr>)"
  using MS_PER_DAY_pos
  by (simp add: processInvestment_def completeInvestment_def contractual_to_date_def
      contractual_total_def skipped_def scenario_defs whole_days_elapsed Let_def store_ops)

text \<open>
  Claim C6, amended: a negative owed amount is never reported as a failure. On the accrual
  path the call returns the successful skip ``No new profit to distribute'' and changes
  nothing. On the completion path, with a working store, the negative amount is replaced
  by 0: no balance changes, no PROFIT entry is written, \<open>total_earned\<close> is set to the
  contractual total, the status to COMPLETED, the zero-amount completion entry is
  appended, and the call reports success with a final amount of 0.
\<close>

theorem negative_owed_reported_as_success:
  "(now env \<le> end_date iv \<and> 1 \<le> (now env - start_date iv) div MS_PER_DAY
      \<and> contractual_to_date iv (now env) - total_earned iv < 0
    \<longrightarrow> processInvestment iv env s = (skipped ''No new profit to distribute'', s))
   \<and> (end_date iv < now env \<and> contractual_total iv - total_earned iv < 0
      \<and> tx_fault env = None \<and> inv_id iv \<in> set (map inv_id (investments s))
    \<longrightarrow> processInvestment iv env s
        = (\<lparr>success = True, completed = True, profitAmount = Some 0,
            emailSent = email_ok env,
            message = Some ''Investment completed successfully'', error = None\<rparr>,
           s\<lparr>investments :=
                 map (\<lambda>r. if inv_id r = inv_id iv
                           then r\<lparr>status := COMPLETED, total_earned := contractual_total iv,
                                  updated_at := now env\<rparr>
                           else r) (investments s),
               transactions :=
                 transactions s @
                   [\<lparr>tx_user_id = user_id iv, tx_type = INVESTMENT, tx_amount_usd = 0,
                     tx_description =
                       InvestmentCompletedTotal (plan_name iv) (contractual_total iv)\<rparr>]\<rparr>))"
proof (intro conjI impI)
  assume "now env \<le> end_date iv \<and> 1 \<le> (now env - start_date iv) div MS_PER_DAY
      \<and> contractual_to_date iv (now env) - total_earned iv < 0"
  then show "processInvestment iv env s = (skipped ''No new profit to distribute'', s)"
    by (intro processInvestment_nothing_owed) simp_all
next
  assume a: "end_date iv < now env \<and> contractual_total iv - total_earned iv < 0
      \<and> tx_fault env = None \<and> inv_id iv \<in> set (map inv_id (investments s))"
  then have "contractual_total iv - total_earned iv \<le> 0 \<or> users s (user_id iv) = Some 0"
    by simp
  from completeInvestment_ok [OF _ _ this, of env] a
  show "processInvestment iv env s
        = (\<lparr>success = True, completed = True, profitAmount = Some 0,
            emailSent = email_ok env,
            message = Some ''Investment completed successfully'', error = None\<rparr>,
           s\<lparr>investments :=
                 map (\<lambda>r. if inv_id r = inv_id iv
                           then r\<lparr>status := COMPLETED, total_earned := contractual_total iv,
                                  updated_at := now env\<rparr>
                           else r) (investments s),
               transactions :=
                 transactions s @
                   [\<lparr>tx_user_id = user_id iv, tx_type = INVESTMENT, tx_amount_usd = 0,
                     tx_description =
                       InvestmentCompletedTotal (plan_name iv) (contractual_total iv)\<rparr>]\<rparr>)"
    by (simp add: processInvestment_ended max_def)
qed

text \<open>Both paths on the investment with 50 earned.\<close>

theorem negative_owed_reported_as_success_witness:
  "processInvestment scenario_overpaid_investment
      \<lparr>now = 5 * MS_PER_DAY, tx_fault = None, email_ok = True\<rparr> scenario_overpaid_store
     = (skipped ''No new profit to distribute'', scenario_overpaid_store)
   \<and> success (fst (processInvestment scenario_overpaid_investment
        \<lparr>now = 30 * MS_PER_DAY + 1, tx_fault = None, email_ok = True\<rparr>
        scenario_overpaid_store))
   \<and> profitAmount (fst (processInvestment scenario_overpaid_investment
        \<lparr>now = 30 * MS_PER_DAY + 1, tx_fault = None, email_ok = True\<rparr>
        scenario_overpaid_store)) = Some 0"
proof -
  let ?iv = scenario_overpaid_investment
  let ?s = scenario_overpaid_store
  let ?env1 = "\<lparr>now = 5 * MS_PER_DAY, tx_fault = None, email_ok = True\<rparr>"
  let ?env2 = "\<lparr>now = 30 * MS_PER_DAY + 1, tx_fault = None, email_ok = True\<rparr>"
  have a: "now ?env1 \<le> end_date ?iv \<and> 1 \<le> (now ?env1 - start_date ?iv) div MS_PER_DAY
      \<and> contractual_to_date ?iv (now ?env1) - total_earned ?iv < 0"
    using MS_PER_DAY_pos
    by (simp add: scenario_defs contractual_to_date_def whole_days_elapsed)
  have b: "end_date ?iv < now ?env2 \<and> contractual_total ?iv - total_earned ?iv < 0
      \<and> tx_fault ?env2 = None \<and> inv_id ?iv \<in> set (map inv_id (investments ?s))"
    by (simp add: scenario_defs contractual_total_def)
  from negative_owed_reported_as_success [of ?env1 ?iv ?s] a
  have first: "processInvestment ?iv ?env1 ?s = (skipped ''No new profit to distribute'', ?s)"
    by blast
  from negative_owed_reported_as_success [of ?env2 ?iv ?s] b
  have "success (fst (processInvestment ?iv ?env2 ?s))
      \<and> profitAmount (fst (processInvestment ?iv ?env2 ?s)) = Some 0"
    by simp
  then show ?thesis using first by simp
qed

subsection \<open>C7: a run that finds another run in progress\<close>

text \<open>
  Claim C7 (re-entrancy). When \<^verbatim>\<open>execute\<close> is called while \<open>isRunning\<close> is set, it
  returns at once: the result is the same whatever the store holds, and store and flag
  are as before. The object returned, \<^verbatim>\<open>{success: false, message: 'Job already running'}\<close>,
  has neither an \<^verbatim>\<open>error\<close> nor a \<^verbatim>\<open>results\<close> field, whereas every run that gets past
  the guard returns \<^verbatim>\<open>results\<close>, and a run that fails returns the \<^verbatim>\<open>error\<close> as well: the
  no-op result differs from the result of any run, failed or not. (The \<^verbatim>\<open>success\<close> field
  is \<^verbatim>\<open>false\<close> in the no-op result as in a failed run.)
\<close>

theorem reentrant_execute_is_noop:
  assumes running: "isRunning j"
  shows "execute env j s = (already_running, j, s)
       \<and> run_error already_running = None
       \<and> run_results already_running = None
       \<and> (\<not> isRunning j' \<longrightarrow>
            fst (execute env' j' s') \<noteq> already_running
          \<and> run_results (fst (execute env' j' s')) \<noteq> None
          \<and> (\<not> run_success (fst (execute env' j' s'))
               \<longrightarrow> run_error (fst (execute env' j' s')) \<noteq> None))"
proof -
  have first: "execute env j s = (already_running, j, s)"
    using running by (rule execute_running)
  have shape: "run_error already_running = None" "run_results already_running = None"
    by (simp_all add: already_running_def)
  have other: "fst (execute env' j' s') \<noteq> already_running
          \<and> run_results (fst (execute env' j' s')) \<noteq> None
          \<and> (\<not> run_success (fst (execute env' j' s'))
               \<longrightarrow> run_error (fst (execute env' j' s')) \<noteq> None)"
    if idle: "\<not> isRunning j'"
  proof (cases "list_fault env'")
    case None
    show ?thesis
      by (simp add: execute_admitted [OF idle None] already_running_def)
  next
    case (Some e)
    show ?thesis
      by (simp add: execute_listing_fails [OF idle Some] already_running_def)
  qed
  show ?thesis using first shape other by blast
qed

text \<open>A call during a run, set against a run whose listing fails.\<close>

theorem reentrant_execute_is_noop_witness:
  "isRunning \<lparr>isRunning = True\<rparr>
   \<and> execute (scenario_run (5 * MS_PER_DAY)) \<lparr>isRunning = True\<rparr> (scenario_store 0 0)
       = (already_running, \<lparr>isRunning = True\<rparr>, scenario_store 0 0)
   \<and> \<not> isRunning \<lparr>isRunning = False\<rparr>
   \<and> \<not> run_success (fst (execute ((scenario_run 0)\<lparr>list_fault := Some (StoreFault ''down'')\<rparr>)
                            \<lparr>isRunning = False\<rparr> (scenario_store 0 0)))
   \<and> fst (execute ((scenario_run 0)\<lparr>list_fault := Some (StoreFault ''down'')\<rparr>)
             \<lparr>isRunning = False\<rparr> (scenario_store 0 0)) \<noteq> already_running
   \<and> run_error (fst (execute ((scenario_run 0)\<lparr>list_fault := Some (StoreFault ''down'')\<rparr>)
                        \<lparr>isRunning = False\<rparr> (scenario_store 0 0))) \<noteq> None"
proof -
  let ?down = "(scenario_run 0)\<lparr>list_fault := Some (StoreFault ''down'')\<rparr>"
  have h: "isRunning \<lparr>isRunning = True\<rparr>" and idle: "\<not> isRunning \<lparr>isRunning = False\<rparr>"
    by simp_all
  have failed_run: "\<not> run_success (fst (execute ?down \<lparr>isRunning = False\<rparr> (scenario_store 0 0)))"
    by (simp add: execute_def findMany_ACTIVE_def scenario_run_def Let_def)
  note w = reentrant_execute_is_noop [OF h, of "scenario_run (5 * MS_PER_DAY)"
      "scenario_store 0 0" "\<lparr>isRunning = False\<rparr>" ?down "scenario_store 0 0"]
  show ?thesis using h idle failed_run w by blast
qed

subsection \<open>C8: the flag after a run\<close>

text \<open>
  Claim C8. A run that gets past the guard leaves \<open>isRunning\<close> false on each of its exits:
  after the loop over the listed investments, and when listing them throws (the only
  statement of the \<^verbatim>\<open>try\<close> block that can throw, since \<^verbatim>\<open>processInvestment\<close> catches its own
  errors). When listing throws, the run stops there: the store is as before and the
  result carries the error together with a summary in which every count, the processed
  investments among them, is zero.
\<close>

theorem flag_released:
  assumes idle: "\<not> isRunning j"
  shows "\<not> isRunning (fst (snd (execute env j s)))
       \<and> (list_fault env = Some e \<longrightarrow>
            execute env j s
              = (\<lparr>run_success = False, run_message = ''Daily profit calculation failed'',
                  run_error = Some e,
                  run_results =
                    Some \<lparr>totalInvestments = 0, processedInvestments = 0,
                          completedInvestments = 0, totalProfitDistributed = 0,
                          errors = [], emailsSent = 0\<rparr>,
                  run_duration = None\<rparr>,
                 j\<lparr>isRunning := False\<rparr>, s))"
proof (cases "list_fault env")
  case None
  show ?thesis
    by (simp add: execute_admitted [OF idle None] None)
next
  case (Some e')
  show ?thesis
    by (simp add: execute_listing_fails [OF idle Some] Some initial_results_def)
qed

text \<open>A run whose listing fails.\<close>

theorem flag_released_witness:
  "\<not> isRunning \<lparr>isRunning = False\<rparr>
   \<and> \<not> isRunning (fst (snd (execute ((scenario_run 0)\<lparr>list_fault := Some (StoreFault ''down'')\<rparr>)
                                \<lparr>isRunning = False\<rparr> (scenario_store 0 0))))
   \<and> execute ((scenario_run 0)\<lparr>list_fault := Some (StoreFault ''down'')\<rparr>)
        \<lparr>isRunning = False\<rparr> (scenario_store 0 0)
       = (\<lparr>run_success = False, run_message = ''Daily profit calculation failed'',
           run_error = Some (StoreFault ''down''),
           run_results =
             Some \<lparr>totalInvestments = 0, processedInvestments = 0,
                   completedInvestments = 0, totalProfitDistributed = 0,
                   errors = [], emailsSent = 0\<rparr>,
           run_duration = None\<rparr>,
          \<lparr>isRunning = False\<rparr>, scenario_store 0 0)"
proof -
  let ?down = "(scenario_run 0)\<lparr>list_fault := Some (StoreFault ''down'')\<rparr>"
  have idle: "\<not> isRunning \<lparr>isRunning = False\<rparr>"
    by simp
  have fault: "list_fault ?down = Some (StoreFault ''down'')"
    by simp
  note w = flag_released [OF idle, of ?down "scenario_store 0 0" "StoreFault ''down''"]
  show ?thesis using idle fault w by simp
qed

subsection \<open>C9: the first accrual of the test investment\<close>

text \<open>
  Claim C9. An investment of 100 at 1.5 percent a day for 30 days that started five days
  before the run and has earned nothing is credited 100 * 1.5 * 5 / 100 = 7.50 by one call
  of \<^verbatim>\<open>processInvestment\<close>: \<open>total_earned\<close> becomes 7.50, the balance \<open>b\<close> of the
  owner becomes \<open>b + 7.50\<close> (so 7.50 from 0.00), one PROFIT entry of 7.50 is written, and
  the status is still ACTIVE. The amounts are exact rationals here; every number of the
  scenario is also exactly representable in binary floating point.
\<close>

theorem scenario_first_accrual:
  "processInvestment (scenario_investment t0)
      \<lparr>now = t0 + 5 * MS_PER_DAY, tx_fault = None, email_ok = m\<rparr> (scenario_store t0 b)
   = (\<lparr>success = True, completed = False, profitAmount = Some (15 / 2), emailSent = m,
       message = Some ''Profit calculated and distributed successfully'', error = None\<rparr>,
      \<lparr>users = [1 \<mapsto> b + 15 / 2],
       investments =
         [(scenario_investment t0)\<lparr>total_earned := 15 / 2, status := ACTIVE,
                                    updated_at := t0 + 5 * MS_PER_DAY\<rparr>],
       transactions =
         [\<lparr>tx_user_id = 1, tx_type = PROFIT, tx_amount_usd = 15 / 2,
           tx_description = DailyProfitFrom ''Starter'' (3 / 2)\<rparr>]\<rparr>)"
  using MS_PER_DAY_pos
  by (simp add: processInvestment_def scenario_investment_def scenario_store_def
      whole_days_elapsed Let_def store_ops)

text \<open>The scenario with the clock at 0 and an empty balance.\<close>

theorem scenario_first_accrual_witness:
  "users (snd (processInvestment (scenario_investment 0)
      \<lparr>now = 0 + 5 * MS_PER_DAY, tx_fault = None, email_ok = True\<rparr> (scenario_store 0 0))) 1
   = Some (15 / 2)"
  using scenario_first_accrual [of 0 True 0] by simp

subsection \<open>C10: the counts of the run summary\<close>

text \<open>
  Claim C10. When a run gets past the guard and lists N active investments, its summary
  has \<open>totalInvestments = N = processedInvestments + errors.length\<close>, and
  \<open>processedInvestments\<close> is the number of calls of \<^verbatim>\<open>processInvestment\<close> that reported
  success, the skips ``too recent'' and ``no new profit'' included: it does not count the
  investments that were credited.
\<close>

theorem run_summary_accounting:
  assumes idle: "\<not> isRunning j" and listed: "list_fault env = None"
  shows "\<exists>res. run_results (fst (execute env j s)) = Some res
     \<and> totalInvestments res = length (filter (\<lambda>r. status r = ACTIVE) (investments s))
     \<and> totalInvestments res = processedInvestments res + length (errors res)
     \<and> processedInvestments res
         = length (filter success
             (outcomes (filter (\<lambda>r. status r = ACTIVE) (investments s)) 0 (calls env) s))"
proof -
  let ?active = "filter (\<lambda>r. status r = ACTIVE) (investments s)"
  let ?start = "initial_results\<lparr>totalInvestments := length ?active\<rparr>"
  let ?res = "fst (process_all ?active 0 (calls env) ?start s)"
  let ?out = "outcomes ?active 0 (calls env) s"
  have res: "run_results (fst (execute env j s)) = Some ?res"
    by (simp add: execute_admitted [OF idle listed])
  note counts = process_all_counts [of ?active 0 "calls env" ?start s]
  have total: "totalInvestments ?res = length ?active"
    using counts by simp
  have processed: "processedInvestments ?res = length (filter success ?out)"
    using counts by (simp add: initial_results_def)
  have errs: "length (errors ?res) = length (filter (\<lambda>r. \<not> success r) ?out)"
    using counts by (simp add: initial_results_def)
  have "length (filter success ?out) + length (filter (\<lambda>r. \<not> success r) ?out) = length ?out"
    by (rule sum_length_filter_compl)
  then have "processedInvestments ?res + length (errors ?res) = length ?active"
    using processed errs by (simp add: outcomes_length)
  then show ?thesis
    using res total processed by simp
qed

text \<open>A run on the day the test investment started: nothing is credited, and the
  investment is counted as processed.\<close>

theorem run_summary_accounting_witness:
  "\<not> isRunning \<lparr>isRunning = False\<rparr>
   \<and> list_fault (scenario_run 0) = None
   \<and> (\<exists>res. run_results (fst (execute (scenario_run 0) \<lparr>isRunning = False\<rparr>
                                  (scenario_store 0 0))) = Some res
          \<and> totalInvestments res = processedInvestments res + length (errors res)
          \<and> totalInvestments res = 1
          \<and> processedInvestments res = 1
          \<and> totalProfitDistributed res = 0)
   \<and> snd (snd (execute (scenario_run 0) \<lparr>isRunning = False\<rparr> (scenario_store 0 0)))
       = scenario_store 0 0"
proof -
  let ?run = "execute (scenario_run 0) \<lparr>isRunning = False\<rparr> (scenario_store 0 0)"
  have idle: "\<not> isRunning \<lparr>isRunning = False\<rparr>"
    by simp
  have listed: "list_fault (scenario_run 0) = None"
    by (simp add: scenario_run_def)
  have recent: "processInvestment (scenario_investment 0)
       \<lparr>now = 0, tx_fault = None, email_ok = True\<rparr> (scenario_store 0 0)
     = (skipped ''Investment too recent for profit'', scenario_store 0 0)"
    using MS_PER_DAY_pos
    by (intro processInvestment_too_recent) (simp_all add: scenario_investment_def)
  have active: "filter (\<lambda>r. status r = ACTIVE) (investments (scenario_store 0 0))
      = [scenario_investment 0]"
    by (simp add: scenario_defs)
  have run: "?run =
    (\<lparr>run_success = True,
      run_message = ''Daily profit calculation completed successfully'',
      run_error = None,
      run_results =
        Some \<lparr>totalInvestments = 1, processedInvestments = 1, completedInvestments = 0,
              totalProfitDistributed = 0, errors = [], emailsSent = 0\<rparr>,
      run_duration = Some 0\<rparr>,
     \<lparr>isRunning = False\<rparr>, scenario_store 0 0)"
    by (simp add: execute_def findMany_ACTIVE_def Let_def active recent scenario_run_def
        record_outcome_def skipped_def initial_results_def)
  from run_summary_accounting [OF idle listed, of "scenario_store 0 0"]
  obtain res where res: "run_results (fst ?run) = Some res"
    "totalInvestments res = processedInvestments res + length (errors res)"
    by blast
  have "totalInvestments res = 1" "processedInvestments res = 1"
    "totalProfitDistributed res = 0"
    using res(1) run by auto
  then show ?thesis
    using idle listed res run by simp
qed

end
